theory Spec2Isabelle
  imports Main
begin

unbundle bit_operations_syntax

section \<open>The podcasts table and the Podcast entity (simpleplex/model/podcasts.py)\<close>

text \<open>
  The mapped class has one attribute per column of the \<open>podcasts\<close> table. A Python
  attribute that was never assigned reads as \<open>None\<close>, and that is also what a nullable
  column stores as NULL, so every field is an option. The timestamps are seconds
  on some clock; \<open>id\<close> is called \<open>id_p\<close> because \<open>id\<close> is the identity
  function of HOL.
\<close>

record podcast =
  id_p :: "int option"
  slug :: "string option"
  created_on :: "int option"
  modified_on :: "int option"
  title :: "string option"
  subtitle :: "string option"
  description :: "string option"
  category :: "string option"
  author_name :: "string option"
  author_email :: "string option"
  explicit :: "bool option"
  copyright :: "string option"
  itunes_url :: "string option"
  feedburner_url :: "string option"

text \<open>
  The class declares no constructor: \<open>Podcast()\<close> is an object on which no
  attribute has been assigned yet.
\<close>

definition Podcast :: podcast where
  "Podcast = \<lparr> id_p = None, slug = None, created_on = None, modified_on = None,
     title = None, subtitle = None, description = None, category = None,
     author_name = None, author_email = None, explicit = None, copyright = None,
     itunes_url = None, feedburner_url = None \<rparr>"

section \<open>The media table, as far as the counters read it\<close>

text \<open>
  The two counters read three columns of the \<open>media\<close> table: the primary key
  \<open>id\<close> (here \<open>id_m\<close>, never NULL), the foreign key \<open>podcast_id\<close> and the
  \<open>status\<close> bitmask. The last two are options so that NULL is a value of the model.
\<close>

record media =
  id_m :: int
  podcast_id :: "int option"
  status :: "int option"

section \<open>SQL expressions with three-valued logic\<close>

text \<open>
  A comparison or an operator with a NULL operand is NULL (\<open>None\<close>); \<open>AND\<close> is
  false as soon as one side is false, and NULL otherwise when a side is NULL. A
  \<open>WHERE\<close> clause keeps the rows on which it is true.
\<close>

fun sql_eq :: "int option \<Rightarrow> int option \<Rightarrow> bool option" where
  "sql_eq (Some a) (Some b) = Some (a = b)"
| "sql_eq _ _ = None"

fun sql_bitand :: "int option \<Rightarrow> int option \<Rightarrow> int option" where
  "sql_bitand (Some a) (Some b) = Some (a AND b)"
| "sql_bitand _ _ = None"

fun sql_and :: "bool option \<Rightarrow> bool option \<Rightarrow> bool option" where
  "sql_and (Some False) _ = Some False"
| "sql_and _ (Some False) = Some False"
| "sql_and (Some True) (Some True) = Some True"
| "sql_and _ _ = None"

definition sql_count_where :: "('r \<Rightarrow> bool option) \<Rightarrow> 'r list \<Rightarrow> int" where
  "sql_count_where cond rows = int (length (filter (\<lambda>r. cond r = Some True) rows))"

section \<open>The episode counters\<close>

text \<open>
  \<open>int(MediaStatus('trash'))\<close> and \<open>int(MediaStatus('publish'))\<close> come from
  \<open>simpleplex.model.media\<close>; they are the parameters \<open>trash\<close> and \<open>publish\<close>.
  Each counter is the correlated subquery of the mapper: \<open>count(media.id)\<close> over the
  rows of \<open>media\<close> that satisfy the \<open>and_\<close> of the listed conditions, for the row
  \<open>p\<close> of \<open>podcasts\<close>.
\<close>

definition media_count_cond :: "int \<Rightarrow> podcast \<Rightarrow> media \<Rightarrow> bool option" where
  "media_count_cond trash p m =
     sql_and (sql_eq (podcast_id m) (id_p p))
             (sql_eq (sql_bitand (status m) (Some trash)) (Some 0))"

definition media_count :: "int \<Rightarrow> media list \<Rightarrow> podcast \<Rightarrow> int" where
  "media_count trash ms p = sql_count_where (media_count_cond trash p) ms"

definition published_media_count_cond ::
    "int \<Rightarrow> int \<Rightarrow> podcast \<Rightarrow> media \<Rightarrow> bool option" where
  "published_media_count_cond publish trash p m =
     sql_and (sql_eq (podcast_id m) (id_p p))
      (sql_and (sql_eq (sql_bitand (status m) (Some publish)) (Some publish))
               (sql_eq (sql_bitand (status m) (Some trash)) (Some 0)))"

definition published_media_count :: "int \<Rightarrow> int \<Rightarrow> media list \<Rightarrow> podcast \<Rightarrow> int" where
  "published_media_count publish trash ms p =
     sql_count_where (published_media_count_cond publish trash p) ms"

subsection \<open>The counters as the specification words them\<close>

text \<open>
  A row belongs to the podcast when its \<open>podcast_id\<close> is the podcast's \<open>id\<close>; a
  status includes a flag when masking with the flag gives the flag back, and excludes it
  when masking gives zero. A row without a status has no bitmask to test.
\<close>

definition belongs_to :: "media \<Rightarrow> podcast \<Rightarrow> bool" where
  "belongs_to m p =
     (case podcast_id m of None \<Rightarrow> False
      | Some a \<Rightarrow> (case id_p p of None \<Rightarrow> False | Some b \<Rightarrow> a = b))"

definition status_includes :: "media \<Rightarrow> int \<Rightarrow> bool" where
  "status_includes m flag = (case status m of None \<Rightarrow> False | Some s \<Rightarrow> s AND flag = flag)"

definition status_excludes :: "media \<Rightarrow> int \<Rightarrow> bool" where
  "status_excludes m flag = (case status m of None \<Rightarrow> False | Some s \<Rightarrow> s AND flag = 0)"

definition spec_media_count :: "int \<Rightarrow> media list \<Rightarrow> podcast \<Rightarrow> int" where
  "spec_media_count trash ms p =
     int (length (filter (\<lambda>m. belongs_to m p \<and> status_excludes m trash) ms))"

definition spec_published_media_count ::
    "int \<Rightarrow> int \<Rightarrow> media list \<Rightarrow> podcast \<Rightarrow> int" where
  "spec_published_media_count publish trash ms p =
     int (length (filter (\<lambda>m. belongs_to m p \<and> status_includes m publish
                               \<and> status_excludes m trash) ms))"

section \<open>The slug normalizer\<close>

text \<open>
  \<open>slugify\<close> is imported from \<open>simpleplex.model\<close> and is not part of this
  file. Characters are bytes; the letters and digits are those of ASCII.
\<close>

definition is_upper :: "char \<Rightarrow> bool" where
  "is_upper c = (65 \<le> (of_char c :: nat) \<and> (of_char c :: nat) \<le> 90)"

definition is_lower :: "char \<Rightarrow> bool" where
  "is_lower c = (97 \<le> (of_char c :: nat) \<and> (of_char c :: nat) \<le> 122)"

definition is_digit :: "char \<Rightarrow> bool" where
  "is_digit c = (48 \<le> (of_char c :: nat) \<and> (of_char c :: nat) \<le> 57)"

definition is_alnum :: "char \<Rightarrow> bool" where
  "is_alnum c = (is_upper c \<or> is_lower c \<or> is_digit c)"

definition lower_char :: "char \<Rightarrow> char" where
  "lower_char c = (if is_upper c then char_of ((of_char c :: nat) + 32) else c)"

text \<open>
  Modelled from the spec: the step of \<open>slugify\<close> that collapses what is not
  alphanumeric to separators. A maximal run of non-alphanumeric characters becomes
  one \<open>-\<close>; the flag says that the previous character was already turned into
  the separator.
\<close>

fun collapse_from :: "bool \<Rightarrow> string \<Rightarrow> string" where
  "collapse_from prev [] = []"
| "collapse_from prev (c # cs) =
     (if is_alnum c then c # collapse_from False cs
      else if prev then collapse_from True cs
      else CHR ''-'' # collapse_from True cs)"

definition SLUG_LENGTH :: nat where
  "SLUG_LENGTH = 50"

text \<open>
  Modelled from the spec: \<open>slugify\<close> of \<open>simpleplex.model\<close>, which lower-cases
  the string, collapses the non-alphanumeric characters to separators and keeps at
  most 50 characters. The spec names no other step, so none is modelled: the
  separators at either end stay, and the cut to 50 characters comes last.
\<close>

definition slugify :: "string \<Rightarrow> string" where
  "slugify s = take SLUG_LENGTH (collapse_from False (map lower_char s))"

text \<open>
  The characters that a URL path may carry unescaped: the unreserved characters of
  RFC 3986, which are the ASCII letters and digits and \<open>-\<close>, \<open>.\<close>, \<open>_\<close>,
  \<open>~\<close>.
\<close>

definition url_safe :: "char \<Rightarrow> bool" where
  "url_safe c = (is_alnum c \<or> c = CHR ''-'' \<or> c = CHR ''.'' \<or> c = CHR ''_''
                 \<or> c = CHR ''~'')"

text \<open>
  What the normalizer produces: lower-case letters, digits and single separators.
  The flag has the meaning it has in \<open>collapse_from\<close>.
\<close>

fun normalized_from :: "bool \<Rightarrow> string \<Rightarrow> bool" where
  "normalized_from prev [] = True"
| "normalized_from prev (c # cs) =
     (if is_lower c \<or> is_digit c then normalized_from False cs
      else c = CHR ''-'' \<and> \<not> prev \<and> normalized_from True cs)"

section \<open>Assignment to the mapped attributes\<close>

text \<open>
  \<open>@validates('slug')\<close> registers \<open>validate_slug\<close> on the attribute: every
  assignment \<open>p.slug = s\<close> stores what the validator returns for \<open>s\<close>. The
  validator has no branch and raises nothing itself.
\<close>

definition validate_slug :: "string \<Rightarrow> string \<Rightarrow> string" where
  "validate_slug key s = slugify s"

definition set_slug :: "podcast \<Rightarrow> string \<Rightarrow> podcast" where
  "set_slug p s = p\<lparr>slug := Some (validate_slug ''slug'' s)\<rparr>"

definition set_explicit :: "podcast \<Rightarrow> bool option \<Rightarrow> podcast" where
  "set_explicit p v = p\<lparr>explicit := v\<rparr>"

text \<open>
  The docstring of the class gives the meaning of the three values of
  \<open>explicit\<close> for the iTunes tag: \<open>True\<close> is yes, \<open>None\<close> is no advisory,
  \<open>False\<close> is clean.
\<close>

datatype advisory = Yes | No | Clean

fun explicit_advisory :: "bool option \<Rightarrow> advisory" where
  "explicit_advisory (Some True) = Yes"
| "explicit_advisory None = No"
| "explicit_advisory (Some False) = Clean"

subsection \<open>The author composite\<close>

text \<open>
  Modelled from the spec: the class \<open>Author\<close> of \<open>simpleplex.model\<close>, a value
  with the two fields name and email, built from the two columns when it is read
  and taken apart into them when it is written. A field holds what the column
  holds, so it is an option as the column is.
\<close>

record author =
  name :: "string option"
  email :: "string option"

definition Author :: "string option \<Rightarrow> string option \<Rightarrow> author" where
  "Author n e = \<lparr> name = n, email = e \<rparr>"

text \<open>
  Modelled from the spec: the equality of \<open>Author\<close>, under which two values are
  equal when both fields match.
\<close>

definition author_eq :: "author \<Rightarrow> author \<Rightarrow> bool" where
  "author_eq a b = (name a = name b \<and> email a = email b)"

text \<open>
  \<open>composite(Author, podcasts.c.author_name, podcasts.c.author_email)\<close>: reading
  \<open>p.author\<close> builds the value from the two columns in this order, and
  \<open>p.author = a\<close> writes the two fields of \<open>a\<close> to them.
\<close>

definition get_author :: "podcast \<Rightarrow> author" where
  "get_author p = Author (author_name p) (author_email p)"

definition set_author :: "podcast \<Rightarrow> author \<Rightarrow> podcast" where
  "set_author p a = p\<lparr>author_name := name a, author_email := email a\<rparr>"

section \<open>Committing new podcasts to the table\<close>

text \<open>
  The table declaration gives the constraints that the storage layer checks when a
  new row is inserted: the primary key on the automatic \<open>id\<close>,
  \<open>nullable=False\<close> on \<open>slug\<close>, \<open>title\<close>, \<open>author_name\<close> and
  \<open>author_email\<close> (and on the two timestamps, which their default fills), the
  declared length of every string column, and \<open>unique=True\<close> on \<open>slug\<close>. A
  violated constraint is an error of the commit, with the name of the column; a
  second row with the same primary key is a uniqueness error on \<open>id\<close>.
\<close>

datatype error = NotNullViolation string | LengthViolation string | UniqueViolation string

definition next_id :: "podcast list \<Rightarrow> int" where
  "next_id tbl = 1 + fold (\<lambda>r acc. case id_p r of None \<Rightarrow> acc | Some i \<Rightarrow> max acc i) tbl 0"

definition with_defaults :: "int \<Rightarrow> podcast list \<Rightarrow> podcast \<Rightarrow> podcast" where
  "with_defaults now tbl p =
     p\<lparr> id_p := (case id_p p of None \<Rightarrow> Some (next_id tbl) | Some i \<Rightarrow> Some i),
        created_on := (case created_on p of None \<Rightarrow> Some now | Some t \<Rightarrow> Some t),
        modified_on := (case modified_on p of None \<Rightarrow> Some now | Some t \<Rightarrow> Some t) \<rparr>"

definition too_long :: "nat \<Rightarrow> string option \<Rightarrow> bool" where
  "too_long n v = (case v of None \<Rightarrow> False | Some x \<Rightarrow> n < length x)"

definition insert_podcast :: "int \<Rightarrow> podcast list \<Rightarrow> podcast \<Rightarrow> error + podcast list" where
  "insert_podcast now tbl p =
     (let q = with_defaults now tbl p in
      if slug q = None then Inl (NotNullViolation ''slug'')
      else if title q = None then Inl (NotNullViolation ''title'')
      else if author_name q = None then Inl (NotNullViolation ''author_name'')
      else if author_email q = None then Inl (NotNullViolation ''author_email'')
      else if too_long 50 (slug q) then Inl (LengthViolation ''slug'')
      else if too_long 50 (title q) then Inl (LengthViolation ''title'')
      else if too_long 255 (subtitle q) then Inl (LengthViolation ''subtitle'')
      else if too_long 50 (category q) then Inl (LengthViolation ''category'')
      else if too_long 50 (author_name q) then Inl (LengthViolation ''author_name'')
      else if too_long 50 (author_email q) then Inl (LengthViolation ''author_email'')
      else if too_long 50 (copyright q) then Inl (LengthViolation ''copyright'')
      else if too_long 80 (itunes_url q) then Inl (LengthViolation ''itunes_url'')
      else if too_long 80 (feedburner_url q) then Inl (LengthViolation ''feedburner_url'')
      else if id_p q \<in> set (map id_p tbl) then Inl (UniqueViolation ''id'')
      else if slug q \<in> set (map slug tbl) then Inl (UniqueViolation ''slug'')
      else Inr (tbl @ [q]))"

text \<open>
  A new podcast that the insert can only refuse for its slug: it has no id yet, its
  other required columns are set, and no column other than the slug is longer than
  declared.
\<close>

definition valid_but_slug :: "podcast \<Rightarrow> bool" where
  "valid_but_slug p =
     (id_p p = None \<and> title p \<noteq> None \<and> author_name p \<noteq> None \<and> author_email p \<noteq> None
      \<and> \<not> too_long 50 (title p) \<and> \<not> too_long 255 (subtitle p)
      \<and> \<not> too_long 50 (category p) \<and> \<not> too_long 50 (author_name p)
      \<and> \<not> too_long 50 (author_email p) \<and> \<not> too_long 50 (copyright p)
      \<and> \<not> too_long 80 (itunes_url p) \<and> \<not> too_long 80 (feedburner_url p))"

text \<open>
  A commit inserts the pending objects in the order in which they were added; the
  first error ends it and nothing of the transaction is kept.
\<close>

fun commit :: "int \<Rightarrow> podcast list \<Rightarrow> podcast list \<Rightarrow> error + podcast list" where
  "commit now tbl [] = Inr tbl"
| "commit now tbl (p # ps) =
     (case insert_podcast now tbl p of
        Inl e \<Rightarrow> Inl e
      | Inr tbl' \<Rightarrow> commit now tbl' ps)"

section \<open>Properties of the counters\<close>

lemma sql_and_true_iff: "sql_and a b = Some True \<longleftrightarrow> a = Some True \<and> b = Some True"
  by (induction a b rule: sql_and.induct) simp_all

lemma sql_eq_true_iff: "sql_eq a b = Some True \<longleftrightarrow> (\<exists>x. a = Some x \<and> b = Some x)"
  by (induction a b rule: sql_eq.induct) auto

lemma media_count_cond_iff:
  "media_count_cond trash p m = Some True
     \<longleftrightarrow> belongs_to m p \<and> status_excludes m trash"
  by (cases "podcast_id m"; cases "id_p p"; cases "status m")
     (auto simp: media_count_cond_def belongs_to_def status_excludes_def
        sql_and_true_iff sql_eq_true_iff)

lemma published_media_count_cond_iff:
  "published_media_count_cond publish trash p m = Some True
     \<longleftrightarrow> belongs_to m p \<and> status_includes m publish \<and> status_excludes m trash"
  by (cases "podcast_id m"; cases "id_p p"; cases "status m")
     (auto simp: published_media_count_cond_def belongs_to_def
        status_includes_def status_excludes_def sql_and_true_iff sql_eq_true_iff)

text \<open>
  C2. For every podcast and every table of media rows, \<open>media_count\<close> is the number
  of rows whose \<open>podcast_id\<close> is the podcast's id and whose status masked with the
  trash flag is zero, whatever the other bits of the status are.
\<close>

theorem media_count_counts_untrashed:
  "media_count trash ms p = spec_media_count trash ms p"
  by (simp add: media_count_def sql_count_where_def spec_media_count_def
      media_count_cond_iff)

text \<open>
  C1. For every podcast and every table of media rows, \<open>published_media_count\<close> is
  the number of rows whose \<open>podcast_id\<close> is the podcast's id, whose status masked with
  the publish flag is the publish flag, and whose status masked with the trash flag is
  zero.
\<close>

theorem published_media_count_counts_published:
  "published_media_count publish trash ms p
     = spec_published_media_count publish trash ms p"
  by (simp add: published_media_count_def sql_count_where_def
      spec_published_media_count_def published_media_count_cond_iff)

lemma published_le_media_count:
  "published_media_count publish trash ms p \<le> media_count trash ms p"
proof -
  have "length (filter (\<lambda>m. published_media_count_cond publish trash p m = Some True) ms)
        \<le> length (filter (\<lambda>m. media_count_cond trash p m = Some True) ms)"
  proof (induction ms)
    case Nil
    show ?case by simp
  next
    case (Cons m ms)
    then show ?case
      by (simp add: published_media_count_cond_iff media_count_cond_iff)
  qed
  then show ?thesis
    by (simp add: published_media_count_def media_count_def sql_count_where_def)
qed

text \<open>
  C3. For every podcast and every table of media rows, with any status values and
  any two flags, \<open>media_count \<ge> published_media_count \<ge> 0\<close>.
\<close>

theorem counters_ordered:
  "0 \<le> published_media_count publish trash ms p
   \<and> published_media_count publish trash ms p \<le> media_count trash ms p"
  using published_le_media_count [of publish trash ms p]
  by (simp add: published_media_count_def sql_count_where_def)

lemma includes_not_excludes:
  assumes "status_includes m flag" and "flag \<noteq> 0"
  shows "\<not> status_excludes m flag"
  using assms by (cases "status m") (simp_all add: status_includes_def status_excludes_def)

text \<open>
  C4. A media row whose status includes both the publish flag and the trash flag is
  counted by neither counter of the podcast it belongs to: each counter is the same
  with the row in the table as without it. The trash flag is a bit of the mask, so it
  is not zero.
\<close>

theorem published_and_trashed_not_counted:
  assumes "status_includes m publish" and "status_includes m trash" and "trash \<noteq> 0"
    and "belongs_to m p"
  shows "media_count trash (ms1 @ m # ms2) p = media_count trash (ms1 @ ms2) p
       \<and> published_media_count publish trash (ms1 @ m # ms2) p
           = published_media_count publish trash (ms1 @ ms2) p"
proof -
  have "\<not> status_excludes m trash"
    using assms(2,3) by (rule includes_not_excludes)
  then show ?thesis
    by (simp add: media_count_def published_media_count_def sql_count_where_def
        media_count_cond_iff published_media_count_cond_iff)
qed

theorem published_and_trashed_not_counted_witness:
  "status_includes \<lparr>id_m = 2, podcast_id = Some 7, status = Some 3\<rparr> 2
   \<and> status_includes \<lparr>id_m = 2, podcast_id = Some 7, status = Some 3\<rparr> 1
   \<and> belongs_to \<lparr>id_m = 2, podcast_id = Some 7, status = Some 3\<rparr> (Podcast\<lparr>id_p := Some 7\<rparr>)
   \<and> media_count 1
        [\<lparr>id_m = 1, podcast_id = Some 7, status = Some 2\<rparr>,
         \<lparr>id_m = 2, podcast_id = Some 7, status = Some 3\<rparr>] (Podcast\<lparr>id_p := Some 7\<rparr>) = 1
   \<and> published_media_count 2 1
        [\<lparr>id_m = 1, podcast_id = Some 7, status = Some 2\<rparr>,
         \<lparr>id_m = 2, podcast_id = Some 7, status = Some 3\<rparr>] (Podcast\<lparr>id_p := Some 7\<rparr>) = 1"
proof -
  let ?m = "\<lparr>id_m = 2, podcast_id = Some 7, status = Some 3\<rparr>"
  let ?p = "Podcast\<lparr>id_p := Some 7\<rparr>"
  have a: "status_includes ?m 2" and b: "status_includes ?m 1"
    by (simp_all add: status_includes_def)
  have c: "(1::int) \<noteq> 0" by simp
  have d: "belongs_to ?m ?p" by (simp add: belongs_to_def)
  have rest: "media_count 1 [\<lparr>id_m = 1, podcast_id = Some 7, status = Some 2\<rparr>] ?p = 1"
    "published_media_count 2 1 [\<lparr>id_m = 1, podcast_id = Some 7, status = Some 2\<rparr>] ?p = 1"
    by (simp_all add: media_count_def published_media_count_def sql_count_where_def
        media_count_cond_def published_media_count_cond_def)
  show ?thesis
    using a b d rest
      published_and_trashed_not_counted [OF a b c d,
        of "[\<lparr>id_m = 1, podcast_id = Some 7, status = Some 2\<rparr>]" "[]"]
    by simp
qed

section \<open>Properties of the slug normalizer\<close>

lemma lower_char_not_upper: "\<not> is_upper (lower_char c)"
  by (simp add: lower_char_def is_upper_def)

lemma dash_not_alnum: "\<not> is_alnum (CHR ''-'')"
  by (simp add: is_alnum_def is_upper_def is_lower_def is_digit_def)

lemma collapse_from_normalized:
  "list_all (\<lambda>c. \<not> is_upper c) cs \<Longrightarrow> normalized_from prev (collapse_from prev cs)"
proof (induction cs arbitrary: prev)
  case Nil
  show ?case by simp
next
  case (Cons c cs)
  then have nu: "\<not> is_upper c" and rest: "list_all (\<lambda>c. \<not> is_upper c) cs"
    by simp_all
  show ?case
  proof (cases "is_alnum c")
    case True
    with nu have "is_lower c \<or> is_digit c" by (simp add: is_alnum_def)
    with True Cons.IH [OF rest, of False] show ?thesis by simp
  next
    case False
    have d: "\<not> (is_lower (CHR ''-'') \<or> is_digit (CHR ''-''))"
      by (simp add: is_lower_def is_digit_def)
    show ?thesis
    proof (cases prev)
      case True
      with False Cons.IH [OF rest, of True] show ?thesis by simp
    next
      case np: False
      with False d Cons.IH [OF rest, of True] show ?thesis by simp
    qed
  qed
qed

lemma normalized_from_take: "normalized_from prev cs \<Longrightarrow> normalized_from prev (take n cs)"
proof (induction cs arbitrary: prev n)
  case Nil
  show ?case by simp
next
  case (Cons c cs)
  show ?case
  proof (cases n)
    case 0
    then show ?thesis by simp
  next
    case (Suc k)
    with Cons show ?thesis by (auto split: if_splits)
  qed
qed

lemma normalized_from_lower: "normalized_from prev cs \<Longrightarrow> map lower_char cs = cs"
proof (induction cs arbitrary: prev)
  case Nil
  show ?case by simp
next
  case (Cons c cs)
  have "\<not> is_upper c"
    using Cons.prems by (auto simp: is_upper_def is_lower_def is_digit_def split: if_splits)
  then have "lower_char c = c" by (simp add: lower_char_def)
  moreover have "map lower_char cs = cs"
    using Cons by (auto split: if_splits)
  ultimately show ?case by simp
qed

lemma normalized_from_collapse: "normalized_from prev cs \<Longrightarrow> collapse_from prev cs = cs"
proof (induction cs arbitrary: prev)
  case Nil
  show ?case by simp
next
  case (Cons c cs)
  show ?case
  proof (cases "is_lower c \<or> is_digit c")
    case True
    then have "is_alnum c" by (auto simp: is_alnum_def)
    with True Cons show ?thesis by simp
  next
    case False
    with Cons.prems have c: "c = CHR ''-''" and np: "\<not> prev"
      and rest: "normalized_from True cs"
      by simp_all
    from c have "\<not> is_alnum c" by (simp add: dash_not_alnum)
    with c np Cons.IH [OF rest] show ?thesis by simp
  qed
qed

lemma normalized_from_url_safe: "normalized_from prev cs \<Longrightarrow> list_all url_safe cs"
proof (induction cs arbitrary: prev)
  case Nil
  show ?case by simp
next
  case (Cons c cs)
  then show ?case
    by (auto simp: url_safe_def is_alnum_def split: if_splits)
qed

lemma slugify_normalized: "normalized_from False (slugify s)"
  unfolding slugify_def
  by (rule normalized_from_take, rule collapse_from_normalized)
     (simp add: list_all_iff lower_char_not_upper)

lemma slugify_length: "length (slugify s) \<le> 50"
  by (simp add: slugify_def SLUG_LENGTH_def)

lemma slugify_fixed: "normalized_from False s \<Longrightarrow> length s \<le> 50 \<Longrightarrow> slugify s = s"
  by (simp add: slugify_def SLUG_LENGTH_def normalized_from_lower normalized_from_collapse)

lemma slugify_slugify: "slugify (slugify s) = slugify s"
  using slugify_normalized [of s] slugify_length [of s] by (rule slugify_fixed)

text \<open>
  C5. For every string \<open>s\<close>, normalizing twice gives what normalizing once gives,
  every character of the result is URL-safe, and the result has at most 50
  characters.
\<close>

theorem slugify_idempotent_url_safe_bounded:
  "slugify (slugify s) = slugify s
   \<and> list_all url_safe (slugify s)
   \<and> length (slugify s) \<le> 50"
  using slugify_normalized [of s] slugify_length [of s]
  by (simp add: slugify_fixed normalized_from_url_safe)

section \<open>Properties of the assignments\<close>

text \<open>
  C6. Whatever string is assigned to the slug of a podcast, on an object that has a
  slug already or on a new one, the attribute then holds \<open>slugify\<close> of that string.
  The assignment has no error to return: the empty string is stored as the empty
  slug and a string that is a slug already is stored as it is.
\<close>

theorem slug_assignment_stores_slugify:
  "slug (set_slug p s) = Some (slugify s)
   \<and> slug (set_slug Podcast s) = Some (slugify s)
   \<and> slug (set_slug p []) = Some []
   \<and> slug (set_slug p (slugify t)) = Some (slugify t)"
  by (simp add: set_slug_def validate_slug_def slugify_slugify)
     (simp add: slugify_def)

text \<open>
  C7. Setting the author of a podcast to a name and an email and reading it back
  gives an equal value; the authors of two podcasts are equal exactly when the two
  author columns of the podcasts agree; and two author values are equal exactly
  when they are the same pair of fields.
\<close>

theorem author_round_trip_value_equality:
  "author_eq (get_author (set_author p (Author (Some n) (Some e)))) (Author (Some n) (Some e))
   \<and> (author_eq (get_author p) (get_author q)
        \<longleftrightarrow> author_name p = author_name q \<and> author_email p = author_email q)
   \<and> (author_eq a b \<longleftrightarrow> a = b)"
  by (auto simp: author_eq_def get_author_def set_author_def Author_def)

text \<open>
  C8. The explicit attribute has three states. A new podcast on which it was never
  set reads as no advisory, setting \<open>True\<close> gives yes, setting \<open>False\<close> gives
  clean; the three stored values differ from one another, and the default of the
  column leaves the absent value absent when the row is inserted.
\<close>

theorem explicit_is_tri_state:
  "explicit_advisory (explicit Podcast) = No
   \<and> explicit_advisory (explicit (set_explicit p (Some True))) = Yes
   \<and> explicit_advisory (explicit (set_explicit p (Some False))) = Clean
   \<and> explicit_advisory (explicit (set_explicit p None)) = No
   \<and> explicit Podcast \<noteq> explicit (set_explicit p (Some False))
   \<and> explicit Podcast \<noteq> explicit (set_explicit p (Some True))
   \<and> explicit (set_explicit p (Some True)) \<noteq> explicit (set_explicit q (Some False))
   \<and> explicit (with_defaults now tbl p) = explicit p"
  by (simp add: Podcast_def set_explicit_def with_defaults_def)

lemma fold_max_id_ge:
  "acc \<le> fold (\<lambda>r acc. case id_p r of None \<Rightarrow> acc | Some i \<Rightarrow> max acc i) tbl acc"
proof (induction tbl arbitrary: acc)
  case Nil
  show ?case by simp
next
  case (Cons r tbl)
  show ?case
  proof (cases "id_p r")
    case None
    with Cons.IH [of acc] show ?thesis by simp
  next
    case (Some i)
    with Cons.IH [of "max acc i"] show ?thesis by simp
  qed
qed

lemma fold_max_id_bound:
  "r \<in> set tbl \<Longrightarrow> id_p r = Some i
   \<Longrightarrow> i \<le> fold (\<lambda>r acc. case id_p r of None \<Rightarrow> acc | Some i \<Rightarrow> max acc i) tbl acc"
proof (induction tbl arbitrary: acc)
  case Nil
  then show ?case by simp
next
  case (Cons x tbl)
  show ?case
  proof (cases "r = x")
    case True
    with Cons.prems fold_max_id_ge [of "max acc i" tbl] show ?thesis by simp
  next
    case False
    with Cons.prems have "r \<in> set tbl" by simp
    from Cons.IH [OF this Cons.prems(2)] show ?thesis by simp
  qed
qed

lemma next_id_fresh: "Some (next_id tbl) \<notin> set (map id_p tbl)"
proof
  assume "Some (next_id tbl) \<in> set (map id_p tbl)"
  then obtain r where r: "r \<in> set tbl" "id_p r = Some (next_id tbl)" by auto
  from fold_max_id_bound [OF this, of 0] show False by (simp add: next_id_def)
qed

lemma insert_valid_but_slug:
  assumes "valid_but_slug p" and "slug p = Some (slugify s)"
  shows "insert_podcast now tbl p =
           (if Some (slugify s) \<in> set (map slug tbl) then Inl (UniqueViolation ''slug'')
            else Inr (tbl @ [with_defaults now tbl p]))"
proof -
  have len: "\<not> too_long 50 (Some (slugify s))"
    using slugify_length [of s] by (simp add: too_long_def)
  have fresh: "Some (next_id tbl) \<notin> id_p ` set tbl"
    using next_id_fresh [of tbl] by simp
  show ?thesis
    using assms len fresh
    by (simp add: insert_podcast_def Let_def with_defaults_def valid_but_slug_def)
qed

lemma set_slug_valid_but_slug: "valid_but_slug p \<Longrightarrow> valid_but_slug (set_slug p s)"
  by (simp add: valid_but_slug_def set_slug_def)

lemma insert_stored_duplicate:
  assumes "valid_but_slug p" and "Some (slugify s) \<in> set (map slug tbl)"
  shows "insert_podcast now tbl (set_slug p s) = Inl (UniqueViolation ''slug'')"
proof -
  have "slug (set_slug p s) = Some (slugify s)"
    by (simp add: set_slug_def validate_slug_def)
  with insert_valid_but_slug [OF set_slug_valid_but_slug [OF assms(1)] this, of now tbl] assms(2)
  show ?thesis by simp
qed

text \<open>
  C9. Two new podcasts, valid in every column but perhaps the slug, are given slugs
  that normalize to the same value. Both assignments store the normalized slug and
  return the object. A commit of the two fails with the uniqueness error of the slug
  column, whatever the table held before. Committed one after the other, either the
  first fails with that error, against a row stored before, or it is stored and the
  later commit of the second fails with that error against it; and a commit of the
  second alone fails with that error whenever a stored row has its slug.
\<close>

theorem duplicate_slug_fails_at_commit:
  assumes same: "slugify s1 = slugify s2"
    and p1: "valid_but_slug p1" and p2: "valid_but_slug p2"
  shows "slug (set_slug p1 s1) = Some (slugify s1)
       \<and> slug (set_slug p2 s2) = Some (slugify s1)
       \<and> commit now tbl [set_slug p1 s1, set_slug p2 s2] = Inl (UniqueViolation ''slug'')
       \<and> (case commit now tbl [set_slug p1 s1] of
            Inl e \<Rightarrow> e = UniqueViolation ''slug''
          | Inr stored \<Rightarrow>
              commit later stored [set_slug p2 s2] = Inl (UniqueViolation ''slug''))
       \<and> (Some (slugify s2) \<in> set (map slug tbl)
            \<longrightarrow> commit now tbl [set_slug p2 s2] = Inl (UniqueViolation ''slug''))"
proof -
  let ?a = "set_slug p1 s1" and ?b = "set_slug p2 s2"
  have sa: "slug ?a = Some (slugify s1)" and sb: "slug ?b = Some (slugify s1)"
    using same by (simp_all add: set_slug_def validate_slug_def)
  have ia: "insert_podcast now tbl ?a =
           (if Some (slugify s1) \<in> set (map slug tbl) then Inl (UniqueViolation ''slug'')
            else Inr (tbl @ [with_defaults now tbl ?a]))"
    using set_slug_valid_but_slug [OF p1] sa by (rule insert_valid_but_slug)
  have stored: "Some (slugify s2) \<in> set (map slug (tbl @ [with_defaults now tbl ?a]))"
    using sa same by (simp add: with_defaults_def)
  have ib: "insert_podcast t (tbl @ [with_defaults now tbl ?a]) ?b
              = Inl (UniqueViolation ''slug'')" for t
    using p2 stored by (rule insert_stored_duplicate)
  have one: "commit now tbl [?a, ?b] = Inl (UniqueViolation ''slug'')"
    using ia ib [of now] by simp
  have two: "(case commit now tbl [?a] of
                Inl e \<Rightarrow> e = UniqueViolation ''slug''
              | Inr stored \<Rightarrow> commit later stored [?b] = Inl (UniqueViolation ''slug''))"
    using ia ib [of later] by simp
  have three: "Some (slugify s2) \<in> set (map slug tbl)
                 \<longrightarrow> commit now tbl [?b] = Inl (UniqueViolation ''slug'')"
    using insert_stored_duplicate [OF p2, of s2 tbl now] by simp
  from sa sb one two three show ?thesis by simp
qed

theorem duplicate_slug_fails_at_commit_witness:
  "slugify ''My Show'' = slugify ''my show''
   \<and> valid_but_slug (Podcast\<lparr>title := Some ''A'', author_name := Some ''N'',
                        author_email := Some ''n@x.org''\<rparr>)
   \<and> valid_but_slug (Podcast\<lparr>title := Some ''B'', author_name := Some ''M'',
                        author_email := Some ''m@x.org''\<rparr>)
   \<and> commit 0 []
        [set_slug (Podcast\<lparr>title := Some ''A'', author_name := Some ''N'',
                     author_email := Some ''n@x.org''\<rparr>) ''My Show'',
         set_slug (Podcast\<lparr>title := Some ''B'', author_name := Some ''M'',
                     author_email := Some ''m@x.org''\<rparr>) ''my show'']
       = Inl (UniqueViolation ''slug'')
   \<and> commit 0 []
        [set_slug (Podcast\<lparr>title := Some ''A'', author_name := Some ''N'',
                     author_email := Some ''n@x.org''\<rparr>) ''My Show'']
       = Inr [Podcast\<lparr>id_p := Some 1, slug := Some ''my-show'', created_on := Some 0,
                modified_on := Some 0, title := Some ''A'', author_name := Some ''N'',
                author_email := Some ''n@x.org''\<rparr>]
   \<and> commit 5
        [Podcast\<lparr>id_p := Some 1, slug := Some ''my-show'', created_on := Some 0,
           modified_on := Some 0, title := Some ''A'', author_name := Some ''N'',
           author_email := Some ''n@x.org''\<rparr>]
        [set_slug (Podcast\<lparr>title := Some ''B'', author_name := Some ''M'',
                     author_email := Some ''m@x.org''\<rparr>) ''my show'']
       = Inl (UniqueViolation ''slug'')"
proof -
  let ?p1 = "Podcast\<lparr>title := Some ''A'', author_name := Some ''N'',
               author_email := Some ''n@x.org''\<rparr>"
  let ?p2 = "Podcast\<lparr>title := Some ''B'', author_name := Some ''M'',
               author_email := Some ''m@x.org''\<rparr>"
  let ?row = "Podcast\<lparr>id_p := Some 1, slug := Some ''my-show'', created_on := Some 0,
                modified_on := Some 0, title := Some ''A'', author_name := Some ''N'',
                author_email := Some ''n@x.org''\<rparr>"
  have h: "slugify ''My Show'' = slugify ''my show''" by code_simp
  have v1: "valid_but_slug ?p1" and v2: "valid_but_slug ?p2"
    by (simp_all add: valid_but_slug_def Podcast_def too_long_def)
  have st: "commit 0 [] [set_slug ?p1 ''My Show''] = Inr [?row]" by code_simp
  note inst = duplicate_slug_fails_at_commit [OF h v1 v2, of 0 "[]" 5]
  from inst have one: "commit 0 [] [set_slug ?p1 ''My Show'', set_slug ?p2 ''my show'']
                        = Inl (UniqueViolation ''slug'')"
    by (elim conjE)
  from inst have "case commit 0 [] [set_slug ?p1 ''My Show''] of
                   Inl e \<Rightarrow> e = UniqueViolation ''slug''
                 | Inr stored \<Rightarrow>
                     commit 5 stored [set_slug ?p2 ''my show'']
                       = Inl (UniqueViolation ''slug'')"
    by (elim conjE)
  then have two: "commit 5 [?row] [set_slug ?p2 ''my show''] = Inl (UniqueViolation ''slug'')"
    by (simp only: st sum.case)
  from h v1 v2 one st two show ?thesis by (intro conjI)
qed

text \<open>
  C10. Setting the author of a podcast writes the two author columns and leaves
  every other attribute as it was: id, slug, creation time, title, subtitle,
  description, category, explicit, copyright and the two URLs.
\<close>

theorem set_author_frame:
  "id_p (set_author p a) = id_p p \<and> slug (set_author p a) = slug p
   \<and> created_on (set_author p a) = created_on p
   \<and> title (set_author p a) = title p \<and> subtitle (set_author p a) = subtitle p
   \<and> description (set_author p a) = description p
   \<and> category (set_author p a) = category p
   \<and> explicit (set_author p a) = explicit p \<and> copyright (set_author p a) = copyright p
   \<and> itunes_url (set_author p a) = itunes_url p
   \<and> feedburner_url (set_author p a) = feedburner_url p
   \<and> author_name (set_author p a) = name a \<and> author_email (set_author p a) = email a"
  by (simp add: set_author_def)

end
